theory Spec2Isabelle
  imports Main "HOL-Library.Word"
begin

unbundle bit_operations_syntax

section \<open>Strings and numbers of the host language\<close>

text \<open>
  The driver is TypeScript. Its strings are modelled as \<open>string\<close> (the characters of
  the wire protocol are ASCII), its integer-valued numbers as \<open>nat\<close> or \<open>int\<close>, the
  operands of the bitwise operators as \<open>32 word\<close> (the language converts them to
  32-bit integers), and the result of \<open>parseInt\<close> as \<open>jsnum\<close>, which has the value
  \<open>NaN\<close> beside the integers. A number is written into a template string in decimal.
  The integers of the model are exact. The numbers of the source are doubles: they agree
  with the model for every integer of magnitude up to \<open>2 ^ 53\<close>, which covers the
  identifiers, the selectors and the counts; a longer run of digits is rounded by the
  source's \<open>parseInt\<close>, and an integer of magnitude \<open>10 ^ 21\<close> or more is printed
  by the source in exponent form. A rounded number is at least \<open>2 ^ 53\<close>, so the
  comparison of a received number with an identifier (below 1,000,000) is the same in
  the model and in the source.
\<close>

definition digit_char :: "nat \<Rightarrow> char" where
  "digit_char d = ''0123456789'' ! d"

fun show_nat :: "nat \<Rightarrow> string" where
  "show_nat n = (if n < 10 then [digit_char n]
                 else show_nat (n div 10) @ [digit_char (n mod 10)])"

declare show_nat.simps [simp del]

definition show_int :: "int \<Rightarrow> string" where
  "show_int i = (if i < 0 then CHR ''-'' # show_nat (nat (- i)) else show_nat (nat i))"

datatype jsnum = NaN | Num int

definition show_jsnum :: "jsnum \<Rightarrow> string" where
  "show_jsnum v = (case v of NaN \<Rightarrow> ''NaN'' | Num i \<Rightarrow> show_int i)"

text \<open>White space as \<open>trim\<close> and \<open>parseInt\<close> skip it, among the 8-bit characters:
  tab, line feed, vertical tab, form feed, carriage return, space, no-break space.\<close>

definition is_js_space :: "char \<Rightarrow> bool" where
  "is_js_space c = (c \<in> set [CHR 0x09, CHR 0x0A, CHR 0x0B, CHR 0x0C, CHR 0x0D, CHR 0x20, CHR 0xA0])"

definition trim :: "string \<Rightarrow> string" where
  "trim s = rev (dropWhile is_js_space (rev (dropWhile is_js_space s)))"

definition is_digit :: "char \<Rightarrow> bool" where
  "is_digit c = (c \<in> set ''0123456789'')"

definition digit_val :: "char \<Rightarrow> nat" where
  "digit_val c = (of_char c :: nat) - 48"

text \<open>\<open>parseInt(s, 10)\<close>: skip leading white space, read an optional sign, then the
  longest run of decimal digits; no digit gives \<open>NaN\<close>, and whatever follows the digits
  is ignored.\<close>

definition parseInt :: "string \<Rightarrow> jsnum" where
  "parseInt s =
     (let t = dropWhile is_js_space s;
          sign = (case t of c # _ \<Rightarrow> if c = CHR ''-'' then (- 1 :: int) else 1 | [] \<Rightarrow> 1);
          u = (case t of c # r \<Rightarrow> if c = CHR ''-'' \<or> c = CHR ''+'' then r else t | [] \<Rightarrow> []);
          z = takeWhile is_digit u
      in if z = [] then NaN
         else Num (sign * int (foldl (\<lambda>a c. 10 * a + digit_val c) 0 z)))"

text \<open>\<open>s.split(c)\<close> for a one-character separator: always at least one field.\<close>

fun split_on :: "char \<Rightarrow> string \<Rightarrow> string list" where
  "split_on c [] = [[]]"
| "split_on c (x # xs) =
     (if x = c then [] # split_on c xs
      else (case split_on c xs of f # fs \<Rightarrow> (x # f) # fs | [] \<Rightarrow> [[x]]))"

text \<open>\<open>xs.join(sep)\<close> on an array of strings.\<close>

fun join :: "string \<Rightarrow> string list \<Rightarrow> string" where
  "join sep [] = []"
| "join sep [x] = x"
| "join sep (x # y # ys) = x @ sep @ join sep (y # ys)"

text \<open>\<open>xs.slice(start, stop)\<close>: a negative bound counts from the end, and both
  bounds are clamped to the array.\<close>

definition js_slice :: "int \<Rightarrow> int \<Rightarrow> 'a list \<Rightarrow> 'a list" where
  "js_slice start stop xs =
     (let len = int (length xs);
          k = (if start < 0 then max (len + start) 0 else min start len);
          fin = (if stop < 0 then max (len + stop) 0 else min stop len)
      in take (nat (fin - k)) (drop (nat k) xs))"

text \<open>\<open>xs[i]\<close>, which is \<open>undefined\<close> out of range.\<close>

definition at :: "'a list \<Rightarrow> nat \<Rightarrow> 'a option" where
  "at xs i = (if i < length xs then Some (xs ! i) else None)"

text \<open>\<open>1 << i\<close>: the shift count is taken modulo 32 and the result is a 32-bit
  integer; \<open>acc | x\<close> is the bitwise or of 32-bit integers. The resource selector is
  \<open>indices.reduce((acc, i) => acc | (1 << i), 0)\<close>, and it is printed as a signed
  number.\<close>

definition shl1 :: "int \<Rightarrow> 32 word" where
  "shl1 i = push_bit (nat (i mod 32)) 1"

definition selector_of :: "int list \<Rightarrow> 32 word" where
  "selector_of indices = foldl (\<lambda>acc i. acc OR shl1 i) 0 indices"

definition show_selector :: "32 word \<Rightarrow> string" where
  "show_selector w = show_int (sint w)"


section \<open>Data model (src/models/clearcore.ts)\<close>

record MotorState =
  isWritable :: bool
  enabled :: bool
  stepsComplete :: bool
  isInHardwareFault :: bool
  hlfbState :: jsnum
  hlfbMode :: jsnum
  position :: jsnum

text \<open>The three parameter records each have a field \<open>id\<close> in the source; the
  fields carry the record's name here, since a field name is a constant.\<close>

record MotorMoveParameters =
  move_id :: int
  steps :: int
  velocity :: int
  acceleration :: int

record MotorVelocityParameters =
  vel_id :: int
  vel_velocity :: int
  vel_acceleration :: int

record DigitalPinWriteParameters =
  pin_id :: int
  pin_value :: bool

datatype PinMode = DigitalInput | DigitalOutput | AnalogInput | AnalogOutput

fun PinMode_value :: "PinMode \<Rightarrow> nat" where
  "PinMode_value DigitalInput = 0"
| "PinMode_value DigitalOutput = 1"
| "PinMode_value AnalogInput = 2"
| "PinMode_value AnalogOutput = 3"

section \<open>Command lines built by the domain operations (src/lib/clearcore.ts)\<close>

text \<open>Each operation builds one command string and hands it to \<open>sendCommand\<close>. The
  strings are the template literals of the source, field by field.\<close>

definition getVersion_command :: string where
  "getVersion_command = ''GET_VERSION;0''"

definition expansionBoardsState_command :: string where
  "expansionBoardsState_command = ''EXPANSION_BOARDS_STATE;0''"

definition readMotors_command :: "int list \<Rightarrow> string" where
  "readMotors_command motors = ''MOTORS_STATE;1;'' @ show_selector (selector_of motors)"

definition setEnabledMotors_command :: "int list \<Rightarrow> string" where
  "setEnabledMotors_command motors = ''MOTORS_ENABLE;1;'' @ show_selector (selector_of motors)"

definition moveMotors_command :: "MotorMoveParameters list \<Rightarrow> string" where
  "moveMotors_command motors =
     (let selector = selector_of (map move_id motors);
          args = join '';'' (map (\<lambda>m. show_int (steps m) @ '';'' @ show_int (velocity m)
                                        @ '';'' @ show_int (acceleration m)) motors)
      in ''MOTORS_MOVE;'' @ show_nat (1 + length motors * 3) @ '';''
           @ show_selector selector @ '';'' @ args)"

definition setMotorsHome_command :: "int list \<Rightarrow> string" where
  "setMotorsHome_command motors = ''MOTORS_HOME;1;'' @ show_selector (selector_of motors)"

definition setMotorsVelocity_command :: "MotorVelocityParameters list \<Rightarrow> string" where
  "setMotorsVelocity_command motors =
     (let selector = selector_of (map vel_id motors);
          args = join '';'' (map (\<lambda>m. show_int (vel_velocity m) @ '';''
                                        @ show_int (vel_acceleration m)) motors)
      in ''MOTORS_SET_VELOCITY;'' @ show_nat (1 + length motors * 2) @ '';''
           @ show_selector selector @ '';'' @ args)"

definition stopMotors_command :: "int list \<Rightarrow> string" where
  "stopMotors_command motors = ''MOTORS_STOP_ABRUPT;1;'' @ show_selector (selector_of motors)"

definition motorsSetEStopPin_command :: "int \<Rightarrow> string" where
  "motorsSetEStopPin_command pin = ''MOTORS_SET_ESTOP_PIN;1;'' @ show_int pin"

definition disableAllMotors_command :: string where
  "disableAllMotors_command = ''MOTORS_ENABLE;1;0''"

definition setPinsMode_command :: "PinMode \<Rightarrow> int list \<Rightarrow> string" where
  "setPinsMode_command mode pins =
     ''PINS_MODE_SET;2;'' @ show_selector (selector_of pins) @ '';''
       @ show_nat (PinMode_value mode)"

definition readDigitalSensors_command :: "int list \<Rightarrow> string" where
  "readDigitalSensors_command sensors =
     ''DSENSORS_STATE;1;'' @ show_selector (selector_of sensors)"

definition readAnalogSensors_command :: "int list \<Rightarrow> string" where
  "readAnalogSensors_command sensors =
     ''ASENSORS_STATE;1;'' @ show_selector (selector_of sensors)"

definition writeDigitalPins_command :: "DigitalPinWriteParameters list \<Rightarrow> string" where
  "writeDigitalPins_command pins =
     (let selector = selector_of (map pin_id pins);
          vals = join '';'' (map (\<lambda>p. show_nat (if pin_value p then 1 else 0)) pins)
      in ''DPINS_SET;'' @ show_nat (1 + length pins) @ '';''
           @ show_selector selector @ '';'' @ vals)"

section \<open>Decoding of reply lines by the read operations\<close>

text \<open>\<open>response.split(";").slice(2, -1)\<close>, the expression \<open>readMotors\<close>,
  \<open>readDigitalSensors\<close> and \<open>readAnalogSensors\<close> apply to the reply.\<close>

definition payload_fields :: "string \<Rightarrow> string list" where
  "payload_fields response = js_slice 2 (- 1) (split_on CHR '';'' response)"

text \<open>The loop of \<open>readMotors\<close>: \<open>for (i = 0; i < parts.length; i += 7)\<close>, reading
  \<open>parts[i]\<close> to \<open>parts[i + 6]\<close>, each of which may be \<open>undefined\<close>.\<close>

definition flag_at :: "string list \<Rightarrow> nat \<Rightarrow> bool" where
  "flag_at parts i = (at parts i = Some ''1'')"

definition int_at :: "string list \<Rightarrow> nat \<Rightarrow> jsnum" where
  "int_at parts i = parseInt (case at parts i of None \<Rightarrow> ''0'' | Some p \<Rightarrow> p)"

function readMotors_states :: "string list \<Rightarrow> MotorState list" where
  "readMotors_states parts =
     (if parts = [] then []
      else \<lparr> isWritable = flag_at parts 0, enabled = flag_at parts 1,
             stepsComplete = flag_at parts 2, isInHardwareFault = flag_at parts 3,
             hlfbState = int_at parts 4, hlfbMode = int_at parts 5,
             position = int_at parts 6 \<rparr> # readMotors_states (drop 7 parts))"
  by pat_completeness auto
termination
  by (relation "measure length") auto

declare readMotors_states.simps [simp del]

definition readMotors_result :: "string \<Rightarrow> MotorState list" where
  "readMotors_result response = readMotors_states (payload_fields response)"

definition readDigitalSensors_result :: "string \<Rightarrow> bool list" where
  "readDigitalSensors_result response = map (\<lambda>s. s = ''1'') (payload_fields response)"

definition readAnalogSensors_result :: "string \<Rightarrow> jsnum list" where
  "readAnalogSensors_result response = map parseInt (payload_fields response)"

definition getVersion_result :: "string \<Rightarrow> string" where
  "getVersion_result response = join [] (js_slice 2 22 (split_on CHR '';'' response))"

definition expansionBoardsState_result :: "string \<Rightarrow> jsnum \<times> jsnum" where
  "expansionBoardsState_result response =
     (let parts = split_on CHR '';'' response in (int_at parts 2, int_at parts 3))"

section \<open>The command dispatcher (class ClearCore)\<close>

text \<open>
  An error object is identified by its message. An exchange is the body of the promise
  that \<open>sendCommand\<close> appends to \<open>commandQueue\<close>: it holds the identifier taken
  from the counter, the line written, and the timeout, and it is tagged with the caller
  whose promise it settles.
\<close>

datatype js_error = Error string

record exchange =
  ex_caller :: nat
  currentCommandId :: nat
  commandWithId :: string
  timeoutMs :: nat

text \<open>
  \<open>commandQueue\<close> is a chain of promises, each made by \<open>then\<close> on the one before.
  The chain is described by the state of its first unsettled link and the callbacks
  registered behind it: \<open>Fulfilled\<close> (every link has resolved), \<open>Pending ex\<close> (the
  exchange \<open>ex\<close> waits for its reply; the callbacks of later calls are in
  \<open>waiting\<close>, oldest first), \<open>Rejected e\<close> (a link has rejected with \<open>e\<close>).
  \<open>then\<close> is called with a fulfilment callback only, so a rejected link does not run
  the callback chained on it and passes its rejection on to the next link.
\<close>

datatype queue_state = Fulfilled | Pending exchange | Rejected js_error

text \<open>What the port sees, in order: the call of \<open>flush\<close>, the run of its completion
  callback, and the call of \<open>write\<close> with the line.\<close>

datatype port_event = FlushCalled | FlushCompleted | WriteCalled string

text \<open>
  The fields of the class, with two histories added for observation: \<open>port_trace\<close>,
  the calls made on the port, and \<open>settled\<close>, the settlements of the promises returned
  by \<open>sendCommand\<close>, each with the caller's tag (\<open>Inl\<close> a rejection, \<open>Inr\<close> the
  resolved reply line). \<open>is_serial_port\<close> stands for \<open>isSerialPort(this.port)\<close>.
  \<open>enabledMotors\<close> is a \<open>Set\<close>, which iterates in insertion order: a list without
  duplicates.
\<close>

record ClearCore =
  is_serial_port :: bool
  commandQueue :: queue_state
  waiting :: "(nat \<times> string \<times> nat) list"
  enabledMotors :: "int list"
  commandIdCounter :: nat
  port_trace :: "port_event list"
  settled :: "(nat \<times> (js_error + string)) list"

definition MAX_COMMAND_ID :: nat where
  "MAX_COMMAND_ID = 1000000"

definition new_ClearCore :: "bool \<Rightarrow> ClearCore" where
  "new_ClearCore serial =
     \<lparr> is_serial_port = serial, commandQueue = Fulfilled, waiting = [], enabledMotors = [],
       commandIdCounter = 0, port_trace = [], settled = [] \<rparr>"

text \<open>\<open>resetBuffer\<close>: on a serial port it calls \<open>flush\<close> and returns a promise that
  the completion callback settles; on any other stream it does nothing. \<open>sendCommand\<close>
  calls it and drops the promise.\<close>

definition resetBuffer :: "ClearCore \<Rightarrow> ClearCore" where
  "resetBuffer s =
     (if is_serial_port s then s\<lparr>port_trace := port_trace s @ [FlushCalled]\<rparr> else s)"

text \<open>The body of the promise made in \<open>sendCommand\<close>, up to the call of \<open>write\<close>:
  it runs in one piece when the link before it has resolved.\<close>

definition start_exchange :: "nat \<times> string \<times> nat \<Rightarrow> ClearCore \<Rightarrow> ClearCore" where
  "start_exchange job s =
     (case job of (caller, command, tmo) \<Rightarrow>
        (let s1 = resetBuffer s;
             cid = commandIdCounter s1;
             cwid = show_nat cid @ '';'' @ command;
             s2 = s1\<lparr>commandIdCounter := (commandIdCounter s1 + 1) mod MAX_COMMAND_ID\<rparr>
         in s2\<lparr>commandQueue := Pending \<lparr> ex_caller = caller, currentCommandId = cid,
                                        commandWithId = cwid, timeoutMs = tmo \<rparr>,
               port_trace := port_trace s2 @ [WriteCalled (cwid @ [CHR 0x0A])]\<rparr>))"

text \<open>\<open>sendCommand\<close>: chain the exchange on \<open>commandQueue\<close> and return the new
  link.\<close>

definition sendCommand :: "nat \<Rightarrow> string \<Rightarrow> nat \<Rightarrow> ClearCore \<Rightarrow> ClearCore" where
  "sendCommand caller command tmo s =
     (case commandQueue s of
        Fulfilled \<Rightarrow> start_exchange (caller, command, tmo) s
      | Pending ex \<Rightarrow> s\<lparr>waiting := waiting s @ [(caller, command, tmo)]\<rparr>
      | Rejected e \<Rightarrow> s\<lparr>settled := settled s @ [(caller, Inl e)]\<rparr>)"

text \<open>The pending exchange resolves or rejects. On a resolution the caller gets the
  line and the next callback of the chain runs; on a rejection the caller gets the
  error, and so does every link chained behind, without running.\<close>

definition settle :: "js_error + string \<Rightarrow> ClearCore \<Rightarrow> ClearCore" where
  "settle r s =
     (case commandQueue s of
        Pending ex \<Rightarrow>
          (case r of
             Inr line \<Rightarrow>
               (let s1 = s\<lparr>settled := settled s @ [(ex_caller ex, Inr line)],
                           commandQueue := Fulfilled\<rparr>
                in case waiting s1 of
                     [] \<Rightarrow> s1
                   | job # rest \<Rightarrow> start_exchange job (s1\<lparr>waiting := rest\<rparr>))
           | Inl e \<Rightarrow>
               s\<lparr>settled := settled s @ (ex_caller ex, Inl e)
                               # map (\<lambda>job. (fst job, Inl e)) (waiting s),
                 commandQueue := Rejected e, waiting := []\<rparr>)
      | Fulfilled \<Rightarrow> s
      | Rejected e \<Rightarrow> s)"

text \<open>\<open>dataListener\<close>: compare the number read from the first field of the trimmed
  line with the identifier sent.\<close>

definition leading_field :: "string \<Rightarrow> string" where
  "leading_field data =
     (case split_on CHR '';'' (trim data) of [] \<Rightarrow> ''-1'' | f # _ \<Rightarrow> f)"

definition received_id :: "string \<Rightarrow> jsnum" where
  "received_id data = parseInt (leading_field data)"

definition dataListener :: "exchange \<Rightarrow> string \<Rightarrow> js_error + string" where
  "dataListener ex data =
     (let rid = received_id data
      in if rid \<noteq> Num (int (currentCommandId ex))
         then Inl (Error (''Command ID mismatch. Sent: '' @ show_nat (currentCommandId ex)
                          @ '', Received: '' @ show_jsnum rid
                          @ ''. Response: '' @ [CHR 0x22] @ data @ [CHR 0x22]))
         else Inr (trim data))"

definition timeout_error :: "exchange \<Rightarrow> js_error" where
  "timeout_error ex =
     Error (''Command '' @ [CHR 0x22] @ commandWithId ex @ [CHR 0x22]
            @ '' timed out after '' @ show_nat (timeoutMs ex) @ ''ms'')"

section \<open>Domain operations\<close>

text \<open>\<open>Set.add\<close> and \<open>Set.delete\<close> on the insertion-ordered set.\<close>

definition set_add :: "int list \<Rightarrow> int \<Rightarrow> int list" where
  "set_add xs m = (if m \<in> set xs then xs else xs @ [m])"

definition set_delete :: "int list \<Rightarrow> int \<Rightarrow> int list" where
  "set_delete xs m = removeAll m xs"

text \<open>Every operation calls \<open>sendCommand\<close> with the default timeout of 100 ms.\<close>

definition setEnabledMotors :: "nat \<Rightarrow> int list \<Rightarrow> ClearCore \<Rightarrow> ClearCore" where
  "setEnabledMotors caller motors s = sendCommand caller (setEnabledMotors_command motors) 100 s"

definition enableMotors :: "nat \<Rightarrow> int list \<Rightarrow> ClearCore \<Rightarrow> ClearCore" where
  "enableMotors caller motors s =
     (let s1 = s\<lparr>enabledMotors := foldl set_add (enabledMotors s) motors\<rparr>
      in setEnabledMotors caller (enabledMotors s1) s1)"

definition disableMotors :: "nat \<Rightarrow> int list \<Rightarrow> ClearCore \<Rightarrow> ClearCore" where
  "disableMotors caller motors s =
     (let s1 = s\<lparr>enabledMotors := foldl set_delete (enabledMotors s) motors\<rparr>
      in setEnabledMotors caller (enabledMotors s1) s1)"

definition disableAllMotors :: "nat \<Rightarrow> ClearCore \<Rightarrow> ClearCore" where
  "disableAllMotors caller s = sendCommand caller disableAllMotors_command 100 s"

datatype operation =
    GetVersion
  | ExpansionBoardsState
  | ReadMotors "int list"
  | EnableMotors "int list"
  | DisableMotors "int list"
  | MoveMotors "MotorMoveParameters list"
  | SetMotorsHome "int list"
  | SetMotorsVelocity "MotorVelocityParameters list"
  | StopMotors "int list"
  | MotorsSetEStopPin int
  | DisableAllMotors
  | SetPinsMode PinMode "int list"
  | ReadDigitalSensors "int list"
  | ReadAnalogSensors "int list"
  | WriteDigitalPins "DigitalPinWriteParameters list"

fun call :: "nat \<Rightarrow> operation \<Rightarrow> ClearCore \<Rightarrow> ClearCore" where
  "call c GetVersion s = sendCommand c getVersion_command 100 s"
| "call c ExpansionBoardsState s = sendCommand c expansionBoardsState_command 100 s"
| "call c (ReadMotors motors) s = sendCommand c (readMotors_command motors) 100 s"
| "call c (EnableMotors motors) s = enableMotors c motors s"
| "call c (DisableMotors motors) s = disableMotors c motors s"
| "call c (MoveMotors motors) s = sendCommand c (moveMotors_command motors) 100 s"
| "call c (SetMotorsHome motors) s = sendCommand c (setMotorsHome_command motors) 100 s"
| "call c (SetMotorsVelocity motors) s = sendCommand c (setMotorsVelocity_command motors) 100 s"
| "call c (StopMotors motors) s = sendCommand c (stopMotors_command motors) 100 s"
| "call c (MotorsSetEStopPin pin) s = sendCommand c (motorsSetEStopPin_command pin) 100 s"
| "call c DisableAllMotors s = disableAllMotors c s"
| "call c (SetPinsMode mode pins) s = sendCommand c (setPinsMode_command mode pins) 100 s"
| "call c (ReadDigitalSensors sensors) s = sendCommand c (readDigitalSensors_command sensors) 100 s"
| "call c (ReadAnalogSensors sensors) s = sendCommand c (readAnalogSensors_command sensors) 100 s"
| "call c (WriteDigitalPins pins) s = sendCommand c (writeDigitalPins_command pins) 100 s"

section \<open>Events\<close>

text \<open>
  The driver runs on an event loop: a caller invokes an operation, the line parser
  emits a line, the port emits an error, the callback of \<open>write\<close> reports a failure,
  the timer of the pending exchange fires, or the callback of \<open>flush\<close> runs. The
  listeners for lines, errors and the timer exist only while an exchange is pending:
  each of them removes the others before it settles the exchange. So a line or an
  error that arrives while no exchange is pending finds no listener of the dispatcher
  and changes nothing here, and a callback of an exchange that has already settled
  settles nothing again. Each event is handled in one piece, as a turn of the event
  loop is; the body of an exchange, from \<open>resetBuffer\<close> to the call of \<open>write\<close>,
  is part of one such turn, and the callback of \<open>flush\<close> is a later event.
\<close>

datatype event =
    Call nat operation
  | Data string
  | PortError js_error
  | WriteFailed js_error
  | TimeoutElapsed
  | FlushDone

fun step :: "ClearCore \<Rightarrow> event \<Rightarrow> ClearCore" where
  "step s (Call c opn) = call c opn s"
| "step s (Data d) =
     (case commandQueue s of Pending ex \<Rightarrow> settle (dataListener ex d) s | _ \<Rightarrow> s)"
| "step s (PortError e) =
     (case commandQueue s of Pending ex \<Rightarrow> settle (Inl e) s | _ \<Rightarrow> s)"
| "step s (WriteFailed e) =
     (case commandQueue s of Pending ex \<Rightarrow> settle (Inl e) s | _ \<Rightarrow> s)"
| "step s TimeoutElapsed =
     (case commandQueue s of Pending ex \<Rightarrow> settle (Inl (timeout_error ex)) s | _ \<Rightarrow> s)"
| "step s FlushDone = s\<lparr>port_trace := port_trace s @ [FlushCompleted]\<rparr>"

definition run :: "ClearCore \<Rightarrow> event list \<Rightarrow> ClearCore" where
  "run s evs = foldl step s evs"

text \<open>The lines written to the port, in order.\<close>

definition written :: "ClearCore \<Rightarrow> string list" where
  "written s = concat (map (\<lambda>e. case e of WriteCalled l \<Rightarrow> [l] | _ \<Rightarrow> []) (port_trace s))"

text \<open>What the promise returned to a caller settled with, if it has settled.\<close>

definition outcome :: "ClearCore \<Rightarrow> nat \<Rightarrow> (js_error + string) option" where
  "outcome s c = map_of (settled s) c"


text \<open>What a read operation returns to its caller: the decoded reply, or the error.\<close>

definition readMotors_returned :: "ClearCore \<Rightarrow> nat \<Rightarrow> (js_error + MotorState list) option" where
  "readMotors_returned s c = map_option (map_sum (\<lambda>e. e) readMotors_result) (outcome s c)"

definition readDigitalSensors_returned :: "ClearCore \<Rightarrow> nat \<Rightarrow> (js_error + bool list) option" where
  "readDigitalSensors_returned s c =
     map_option (map_sum (\<lambda>e. e) readDigitalSensors_result) (outcome s c)"

definition readAnalogSensors_returned :: "ClearCore \<Rightarrow> nat \<Rightarrow> (js_error + jsnum list) option" where
  "readAnalogSensors_returned s c =
     map_option (map_sum (\<lambda>e. e) readAnalogSensors_result) (outcome s c)"

text \<open>The fields of a command line as the controller reads them: the name, the
  argument count, the bitmask, and the fields after the bitmask.\<close>

definition argumentCount_field :: "string \<Rightarrow> string option" where
  "argumentCount_field command = at (split_on CHR '';'' command) 1"

definition fields_after_bitmask :: "string \<Rightarrow> string list" where
  "fields_after_bitmask command = drop 3 (split_on CHR '';'' command)"


section \<open>Splitting, joining and printing\<close>

lemma split_on_nonempty: "split_on c xs \<noteq> []"
  by (induction xs) (auto split: list.splits)

lemma split_on_no_sep: "c \<notin> set xs \<Longrightarrow> split_on c xs = [xs]"
  by (induction xs) auto

lemma split_on_append: "split_on c (xs @ c # ys) = split_on c xs @ split_on c ys"
proof (induction xs)
  case Nil
  show ?case by simp
next
  case (Cons x xs)
  obtain f fs where f: "split_on c xs = f # fs"
    using split_on_nonempty [of c xs] by (cases "split_on c xs") auto
  with Cons show ?case by simp
qed

lemma split_on_field: "c \<notin> set a \<Longrightarrow> split_on c (a @ c # rest) = a # split_on c rest"
  by (simp add: split_on_append split_on_no_sep)

lemma split_on_join:
  "xs \<noteq> [] \<Longrightarrow> split_on c (join [c] xs) = concat (map (split_on c) xs)"
proof (induction "[c]" xs rule: join.induct)
  case 1
  then show ?case by simp
next
  case (2 x)
  show ?case by simp
next
  case (3 x y ys)
  then show ?case by (simp add: split_on_append)
qed

lemma digit_char_not_sep: "d < 10 \<Longrightarrow> digit_char d \<noteq> CHR '';''"
proof -
  assume "d < 10"
  then have "d \<in> {0,1,2,3,4,5,6,7,8,9}" by auto
  then show ?thesis by (auto simp: digit_char_def)
qed

lemma show_nat_no_sep: "CHR '';'' \<notin> set (show_nat n)"
proof (induction n rule: show_nat.induct)
  case (1 n)
  show ?case
  proof (cases "n < 10")
    case True
    then show ?thesis using digit_char_not_sep [of n] by (subst show_nat.simps) auto
  next
    case False
    then have "CHR '';'' \<notin> set (show_nat (n div 10))" using 1 by simp
    moreover have "digit_char (n mod 10) \<noteq> CHR '';''" by (rule digit_char_not_sep) simp
    ultimately show ?thesis using False by (subst show_nat.simps) auto
  qed
qed

lemma show_int_no_sep: "CHR '';'' \<notin> set (show_int i)"
  by (simp add: show_int_def show_nat_no_sep)

lemma show_selector_no_sep: "CHR '';'' \<notin> set (show_selector w)"
  by (simp add: show_selector_def show_int_no_sep)

lemma js_slice_2_m1: "js_slice 2 (- 1) xs = butlast (drop 2 xs)"
proof -
  have n: "nat (int (length xs) - 3) = length xs - 3" by arith
  show ?thesis
    by (cases "2 \<le> length xs") (auto simp: js_slice_def Let_def butlast_conv_take n)
qed

lemma bit_shl1: "bit (shl1 i) n \<longleftrightarrow> n < 32 \<and> nat (i mod 32) = n"
  by (auto simp: shl1_def bit_exp_iff possible_bit_word)

lemma bit_selector_foldl:
  "bit (foldl (\<lambda>acc i. acc OR shl1 i) a ms) n \<longleftrightarrow> bit a n \<or> (n < 32 \<and> (\<exists>m\<in>set ms. nat (m mod 32) = n))"
  by (induction ms arbitrary: a) (auto simp: bit_or_iff bit_shl1)

lemma bit_selector_of: "bit (selector_of ms) n \<longleftrightarrow> n < 32 \<and> (\<exists>m\<in>set ms. nat (m mod 32) = n)"
  by (simp add: selector_of_def bit_selector_foldl)

lemma selector_of_set: "set xs = set ys \<Longrightarrow> selector_of xs = selector_of ys"
  by (rule bit_eqI) (simp add: bit_selector_of)

section \<open>Decoding a reply line\<close>

text \<open>
  C10 (as the code has it). The read operations decode a reply with
  \<open>split(";").slice(2, -1)\<close>: the echoed identifier and the status field are
  sliced away, and the last field is dropped whatever it is. When the line ends with the
  delimiter, the field dropped is the empty one after it, and every payload field is kept.
\<close>

theorem payload_fields_drop_last:
  "payload_fields line = butlast (drop 2 (split_on CHR '';'' line))
   \<and> payload_fields (body @ '';'') = drop 2 (split_on CHR '';'' body)"
proof
  show "payload_fields line = butlast (drop 2 (split_on CHR '';'' line))"
    by (simp add: payload_fields_def js_slice_2_m1)
next
  have "split_on CHR '';'' (body @ '';'') = split_on CHR '';'' body @ [[]]"
    using split_on_append [of "CHR '';''" body "[]"] by simp
  then have "butlast (drop 2 (split_on CHR '';'' (body @ '';''))) = drop 2 (split_on CHR '';'' body)"
    by (simp add: drop_butlast [symmetric] del: drop_append)
  then show "payload_fields (body @ '';'') = drop 2 (split_on CHR '';'' body)"
    by (simp only: payload_fields_def js_slice_2_m1)
qed

text \<open>
  C10 (as the claim states it) fails for a reply line without a trailing delimiter:
  the last payload field \<open>7\<close> of \<open>0;0;1;7\<close> is not in the decoded result.
\<close>

theorem payload_fields_loses_last_field:
  "payload_fields ''0;0;1;7'' = [''1''] \<and> ''7'' \<notin> set (payload_fields ''0;0;1;7'')
   \<and> readAnalogSensors_result ''0;0;1;7'' = [Num 1]"
  by (simp add: payload_fields_def js_slice_def readAnalogSensors_result_def parseInt_def
      is_js_space_def is_digit_def digit_val_def)

section \<open>The argument count of a command line\<close>

lemma length_concat_const:
  "(\<And>x. x \<in> set xs \<Longrightarrow> length (f x) = k) \<Longrightarrow> length (concat (map f xs)) = k * length xs"
  by (induction xs) auto

lemma split_on_join_map:
  assumes "xs \<noteq> []"
  shows "split_on c (join [c] (map f xs)) = concat (map (\<lambda>x. split_on c (f x)) xs)"
  using assms split_on_join [of "map f xs" c] by (simp add: comp_def)

lemma moveMotors_fields:
  assumes "motors \<noteq> []"
  shows "split_on CHR '';'' (moveMotors_command motors) =
           ''MOTORS_MOVE'' # show_nat (1 + length motors * 3)
             # show_selector (selector_of (map move_id motors))
             # concat (map (\<lambda>m. [show_int (steps m), show_int (velocity m), show_int (acceleration m)]) motors)"
proof -
  let ?c = "CHR '';''"
  let ?f = "\<lambda>m. show_int (steps m) @ '';'' @ show_int (velocity m) @ '';'' @ show_int (acceleration m)"
  let ?args = "join '';'' (map ?f motors)"
  let ?r2 = "show_selector (selector_of (map move_id motors)) @ ?c # ?args"
  let ?r1 = "show_nat (1 + length motors * 3) @ ?c # ?r2"
  have args: "split_on ?c ?args =
      concat (map (\<lambda>m. [show_int (steps m), show_int (velocity m), show_int (acceleration m)]) motors)"
    using assms
    by (simp add: split_on_join_map split_on_field split_on_no_sep show_int_no_sep)
  have 1: "moveMotors_command motors = ''MOTORS_MOVE'' @ ?c # ?r1"
    by (simp add: moveMotors_command_def)
  have 2: "split_on ?c (''MOTORS_MOVE'' @ ?c # ?r1) = ''MOTORS_MOVE'' # split_on ?c ?r1"
    by (rule split_on_field) simp
  have 3: "split_on ?c ?r1 = show_nat (1 + length motors * 3) # split_on ?c ?r2"
    by (rule split_on_field) (rule show_nat_no_sep)
  have 4: "split_on ?c ?r2 = show_selector (selector_of (map move_id motors)) # split_on ?c ?args"
    by (rule split_on_field) (rule show_selector_no_sep)
  show ?thesis
    by (simp only: 1 2 3 4 args)
qed

lemma setMotorsVelocity_fields:
  assumes "motors \<noteq> []"
  shows "split_on CHR '';'' (setMotorsVelocity_command motors) =
           ''MOTORS_SET_VELOCITY'' # show_nat (1 + length motors * 2)
             # show_selector (selector_of (map vel_id motors))
             # concat (map (\<lambda>m. [show_int (vel_velocity m), show_int (vel_acceleration m)]) motors)"
proof -
  let ?c = "CHR '';''"
  let ?f = "\<lambda>m. show_int (vel_velocity m) @ '';'' @ show_int (vel_acceleration m)"
  let ?args = "join '';'' (map ?f motors)"
  let ?r2 = "show_selector (selector_of (map vel_id motors)) @ ?c # ?args"
  let ?r1 = "show_nat (1 + length motors * 2) @ ?c # ?r2"
  have args: "split_on ?c ?args =
      concat (map (\<lambda>m. [show_int (vel_velocity m), show_int (vel_acceleration m)]) motors)"
    using assms
    by (simp add: split_on_join_map split_on_field split_on_no_sep show_int_no_sep)
  have 1: "setMotorsVelocity_command motors = ''MOTORS_SET_VELOCITY'' @ ?c # ?r1"
    by (simp add: setMotorsVelocity_command_def)
  have 2: "split_on ?c (''MOTORS_SET_VELOCITY'' @ ?c # ?r1) = ''MOTORS_SET_VELOCITY'' # split_on ?c ?r1"
    by (rule split_on_field) simp
  have 3: "split_on ?c ?r1 = show_nat (1 + length motors * 2) # split_on ?c ?r2"
    by (rule split_on_field) (rule show_nat_no_sep)
  have 4: "split_on ?c ?r2 = show_selector (selector_of (map vel_id motors)) # split_on ?c ?args"
    by (rule split_on_field) (rule show_selector_no_sep)
  show ?thesis
    by (simp only: 1 2 3 4 args)
qed

lemma writeDigitalPins_fields:
  assumes "pins \<noteq> []"
  shows "split_on CHR '';'' (writeDigitalPins_command pins) =
           ''DPINS_SET'' # show_nat (1 + length pins)
             # show_selector (selector_of (map pin_id pins))
             # map (\<lambda>p. show_nat (if pin_value p then 1 else 0)) pins"
proof -
  let ?c = "CHR '';''"
  let ?f = "\<lambda>p. show_nat (if pin_value p then 1 else 0)"
  let ?args = "join '';'' (map ?f pins)"
  let ?r2 = "show_selector (selector_of (map pin_id pins)) @ ?c # ?args"
  let ?r1 = "show_nat (1 + length pins) @ ?c # ?r2"
  have "split_on ?c ?args = concat (map (\<lambda>p. [?f p]) pins)"
    using assms by (simp add: split_on_join_map split_on_no_sep show_nat_no_sep)
  also have "\<dots> = map ?f pins"
    by (induction pins) simp_all
  finally have args: "split_on ?c ?args = map ?f pins" .
  have 1: "writeDigitalPins_command pins = ''DPINS_SET'' @ ?c # ?r1"
    by (simp add: writeDigitalPins_command_def)
  have 2: "split_on ?c (''DPINS_SET'' @ ?c # ?r1) = ''DPINS_SET'' # split_on ?c ?r1"
    by (rule split_on_field) simp
  have 3: "split_on ?c ?r1 = show_nat (1 + length pins) # split_on ?c ?r2"
    by (rule split_on_field) (rule show_nat_no_sep)
  have 4: "split_on ?c ?r2 = show_selector (selector_of (map pin_id pins)) # split_on ?c ?args"
    by (rule split_on_field) (rule show_selector_no_sep)
  show ?thesis
    by (simp only: 1 2 3 4 args)
qed

lemma setPinsMode_fields:
  "split_on CHR '';'' (setPinsMode_command mode pins) =
     [''PINS_MODE_SET'', ''2'', show_selector (selector_of pins), show_nat (PinMode_value mode)]"
proof -
  let ?c = "CHR '';''"
  let ?r2 = "show_selector (selector_of pins) @ ?c # show_nat (PinMode_value mode)"
  let ?r1 = "''2'' @ ?c # ?r2"
  have 1: "setPinsMode_command mode pins = ''PINS_MODE_SET'' @ ?c # ?r1"
    by (simp add: setPinsMode_command_def)
  have 2: "split_on ?c (''PINS_MODE_SET'' @ ?c # ?r1) = ''PINS_MODE_SET'' # split_on ?c ?r1"
    by (rule split_on_field) simp
  have 3: "split_on ?c ?r1 = ''2'' # split_on ?c ?r2"
    by (rule split_on_field) simp
  have 4: "split_on ?c ?r2 = show_selector (selector_of pins) # split_on ?c (show_nat (PinMode_value mode))"
    by (rule split_on_field) (rule show_selector_no_sep)
  have 5: "split_on ?c (show_nat (PinMode_value mode)) = [show_nat (PinMode_value mode)]"
    by (rule split_on_no_sep) (rule show_nat_no_sep)
  show ?thesis
    by (simp only: 1 2 3 4 5)
qed

text \<open>
  C9 (as the code has it). The argument count written after the command name counts
  the bitmask too: it is one more than the number of fields that follow the bitmask.
  For \<open>moveMotors\<close> with n motors (n at least 1) the count is 1 + 3n and 3n fields
  follow the bitmask; for \<open>setMotorsVelocity\<close> 1 + 2n and 2n; for
  \<open>writeDigitalPins\<close> with n pins 1 + n and n; for \<open>setPinsMode\<close> 2 and 1.
\<close>

theorem argumentCount_counts_bitmask:
  "(motors \<noteq> [] \<longrightarrow>
      argumentCount_field (moveMotors_command motors) = Some (show_nat (1 + length motors * 3))
      \<and> length (fields_after_bitmask (moveMotors_command motors)) = 3 * length motors)
   \<and> (vmotors \<noteq> [] \<longrightarrow>
      argumentCount_field (setMotorsVelocity_command vmotors) = Some (show_nat (1 + length vmotors * 2))
      \<and> length (fields_after_bitmask (setMotorsVelocity_command vmotors)) = 2 * length vmotors)
   \<and> (pins \<noteq> [] \<longrightarrow>
      argumentCount_field (writeDigitalPins_command pins) = Some (show_nat (1 + length pins))
      \<and> length (fields_after_bitmask (writeDigitalPins_command pins)) = length pins)
   \<and> argumentCount_field (setPinsMode_command mode mpins) = Some ''2''
   \<and> length (fields_after_bitmask (setPinsMode_command mode mpins)) = 1"
  by (simp add: argumentCount_field_def fields_after_bitmask_def at_def moveMotors_fields
      setMotorsVelocity_fields writeDigitalPins_fields setPinsMode_fields length_concat_const)

text \<open>
  The same at the commands of the integration test: one motor moved, one velocity set,
  two pins written.
\<close>

theorem argumentCount_counts_bitmask_witness:
  "argumentCount_field (moveMotors_command [\<lparr>move_id = 0, steps = 100, velocity = 1000, acceleration = 10000\<rparr>]) = Some ''4''
   \<and> length (fields_after_bitmask (moveMotors_command [\<lparr>move_id = 0, steps = 100, velocity = 1000, acceleration = 10000\<rparr>])) = 3
   \<and> argumentCount_field (setMotorsVelocity_command [\<lparr>vel_id = 0, vel_velocity = 1000, vel_acceleration = 10000\<rparr>]) = Some ''3''
   \<and> length (fields_after_bitmask (setMotorsVelocity_command [\<lparr>vel_id = 0, vel_velocity = 1000, vel_acceleration = 10000\<rparr>])) = 2
   \<and> argumentCount_field (writeDigitalPins_command [\<lparr>pin_id = 0, pin_value = True\<rparr>, \<lparr>pin_id = 2, pin_value = False\<rparr>]) = Some ''3''
   \<and> length (fields_after_bitmask (writeDigitalPins_command [\<lparr>pin_id = 0, pin_value = True\<rparr>, \<lparr>pin_id = 2, pin_value = False\<rparr>])) = 2"
  using argumentCount_counts_bitmask [of
      "[\<lparr>move_id = 0, steps = 100, velocity = 1000, acceleration = 10000\<rparr>]"
      "[\<lparr>vel_id = 0, vel_velocity = 1000, vel_acceleration = 10000\<rparr>]"
      "[\<lparr>pin_id = 0, pin_value = True\<rparr>, \<lparr>pin_id = 2, pin_value = False\<rparr>]" DigitalOutput "[0, 2]"]
  by (simp add: show_nat.simps digit_char_def)

text \<open>
  C9 (as the claim states it) fails: \<open>moveMotors\<close> with one motor writes the
  argument count 4, while 3 fields follow the bitmask; \<open>setPinsMode\<close> writes 2, while
  1 field follows the bitmask. The integration test expects these very lines.
\<close>

theorem argumentCount_not_fields_after_bitmask:
  "split_on CHR '';'' (moveMotors_command [\<lparr>move_id = 0, steps = 100, velocity = 1000, acceleration = 10000\<rparr>])
     = [''MOTORS_MOVE'', ''4'', ''1'', ''100'', ''1000'', ''10000'']
   \<and> argumentCount_field (moveMotors_command [\<lparr>move_id = 0, steps = 100, velocity = 1000, acceleration = 10000\<rparr>])
     \<noteq> Some (show_nat (length (fields_after_bitmask
          (moveMotors_command [\<lparr>move_id = 0, steps = 100, velocity = 1000, acceleration = 10000\<rparr>]))))
   \<and> argumentCount_field (setPinsMode_command DigitalOutput [0, 2]) = Some ''2''
   \<and> fields_after_bitmask (setPinsMode_command DigitalOutput [0, 2]) = [''1'']"
  by (simp add: argumentCount_field_def fields_after_bitmask_def at_def moveMotors_command_def
      setPinsMode_command_def show_selector_def selector_of_def shl1_def show_int_def
      show_nat.simps digit_char_def)

section \<open>Command identifiers\<close>


lemma written_append:
  "written (s\<lparr>port_trace := port_trace s @ es\<rparr>) =
     written s @ concat (map (\<lambda>e. case e of WriteCalled l \<Rightarrow> [l] | _ \<Rightarrow> []) es)"
  by (simp add: written_def)

lemma written_resetBuffer: "written (resetBuffer s) = written s"
  by (simp add: resetBuffer_def written_def)

lemma commandIdCounter_resetBuffer: "commandIdCounter (resetBuffer s) = commandIdCounter s"
  by (simp add: resetBuffer_def)

lemma written_start_exchange:
  "written (start_exchange (c, command, tmo) s) =
     written s @ [show_nat (commandIdCounter s) @ CHR '';'' # command @ [CHR 0x0A]]"
  by (simp add: start_exchange_def Let_def written_def resetBuffer_def)












section \<open>The queue of exchanges\<close>

lemmas dispatcher_defs =
  run_def new_ClearCore_def sendCommand_def start_exchange_def resetBuffer_def settle_def
  dataListener_def received_id_def leading_field_def timeout_error_def MAX_COMMAND_ID_def written_def outcome_def

lemmas number_defs =
  parseInt_def trim_def is_js_space_def is_digit_def digit_val_def show_jsnum_def show_int_def
  show_selector_def selector_of_def shl1_def show_nat.simps digit_char_def

text \<open>
  Once a link of the chain has rejected, the chain stays rejected: every later call is
  rejected with the same error at once, and nothing more is written to the port.
\<close>

lemma rejected_call:
  "commandQueue s = Rejected e \<Longrightarrow>
     commandQueue (call c opn s) = Rejected e \<and> port_trace (call c opn s) = port_trace s
     \<and> settled (call c opn s) = settled s @ [(c, Inl e)]"
  by (cases opn)
     (simp_all add: sendCommand_def enableMotors_def disableMotors_def disableAllMotors_def
        setEnabledMotors_def Let_def)

lemma rejected_step:
  "commandQueue s = Rejected e \<Longrightarrow>
     commandQueue (step s ev) = Rejected e \<and> written (step s ev) = written s"
  by (cases ev) (simp_all add: rejected_call written_def)

lemma rejected_run:
  "commandQueue s = Rejected e \<Longrightarrow>
     commandQueue (run s evs) = Rejected e \<and> written (run s evs) = written s"
  unfolding run_def
  by (induction evs arbitrary: s) (simp_all add: rejected_step)

lemma port_trace_start_exchange:
  "port_trace (start_exchange (c, command, tmo) s) =
     port_trace s @ (if is_serial_port s then [FlushCalled] else [])
       @ [WriteCalled (show_nat (commandIdCounter s) @ CHR '';'' # command @ [CHR 0x0A])]"
  by (simp add: start_exchange_def resetBuffer_def Let_def)

text \<open>
  C1, evaluated on the code. Two operations are submitted and the first times out:
  only the first line is written, and the second caller is rejected with the first
  exchange's timeout error; so is a third caller that calls after the timeout. The
  same happens after an error of the port. The claim says that the next exchange is
  written and gets a result of its own.
\<close>

theorem failed_exchange_rejects_later_exchanges:
  "written (run (new_ClearCore False)
       [Call 0 (StopMotors [0]), Call 1 (StopMotors [1]), TimeoutElapsed, Call 2 GetVersion])
     = [''0;MOTORS_STOP_ABRUPT;1;1'' @ [CHR 0x0A]]
   \<and> settled (run (new_ClearCore False)
       [Call 0 (StopMotors [0]), Call 1 (StopMotors [1]), TimeoutElapsed, Call 2 GetVersion])
     = map (\<lambda>c. (c, Inl (Error (''Command '' @ [CHR 0x22] @ ''0;MOTORS_STOP_ABRUPT;1;1''
                                   @ [CHR 0x22] @ '' timed out after 100ms'')))) [0, 1, 2]
   \<and> written (run (new_ClearCore False)
       [Call 0 (StopMotors [0]), PortError (Error ''EIO''), Call 1 (StopMotors [1])])
     = [''0;MOTORS_STOP_ABRUPT;1;1'' @ [CHR 0x0A]]
   \<and> settled (run (new_ClearCore False)
       [Call 0 (StopMotors [0]), PortError (Error ''EIO''), Call 1 (StopMotors [1])])
     = [(0, Inl (Error ''EIO'')), (1, Inl (Error ''EIO''))]"
  by (simp add: dispatcher_defs number_defs stopMotors_command_def getVersion_command_def)

text \<open>
  C2, evaluated on the code. Three operations are submitted at once; the first is
  answered and the second times out. Two lines are written, not three: the third
  operation is rejected with the second exchange's error and never reaches the port.
\<close>

theorem fewer_writes_than_operations:
  "written (run (new_ClearCore False)
       [Call 0 (StopMotors [0]), Call 1 (StopMotors [1]), Call 2 (StopMotors [2]),
        Data ''0;0;'', TimeoutElapsed])
     = [''0;MOTORS_STOP_ABRUPT;1;1'' @ [CHR 0x0A], ''1;MOTORS_STOP_ABRUPT;1;2'' @ [CHR 0x0A]]
   \<and> settled (run (new_ClearCore False)
       [Call 0 (StopMotors [0]), Call 1 (StopMotors [1]), Call 2 (StopMotors [2]),
        Data ''0;0;'', TimeoutElapsed])
     = [(0, Inr ''0;0;''),
        (1, Inl (Error (''Command '' @ [CHR 0x22] @ ''1;MOTORS_STOP_ABRUPT;1;2''
                        @ [CHR 0x22] @ '' timed out after 100ms''))),
        (2, Inl (Error (''Command '' @ [CHR 0x22] @ ''1;MOTORS_STOP_ABRUPT;1;2''
                        @ [CHR 0x22] @ '' timed out after 100ms'')))]"
  by (simp add: dispatcher_defs number_defs stopMotors_command_def)

text \<open>
  C5, evaluated on the code. On a serial port an exchange calls \<open>flush\<close> and then
  \<open>write\<close> in the same turn: the line is handed to the port before the callback of
  \<open>flush\<close> has run, and the completion, when it comes, comes after the write. On a
  stream that is not a serial port \<open>resetBuffer\<close> does nothing.
\<close>

theorem write_before_flush_completes:
  "port_trace (run (new_ClearCore True) [Call 0 GetVersion])
     = [FlushCalled, WriteCalled (''0;GET_VERSION;0'' @ [CHR 0x0A])]
   \<and> port_trace (run (new_ClearCore True) [Call 0 GetVersion, FlushDone])
     = [FlushCalled, WriteCalled (''0;GET_VERSION;0'' @ [CHR 0x0A]), FlushCompleted]
   \<and> port_trace (run (new_ClearCore False) [Call 0 GetVersion])
     = [WriteCalled (''0;GET_VERSION;0'' @ [CHR 0x0A])]
   \<and> resetBuffer (new_ClearCore False) = new_ClearCore False"
  by (simp add: dispatcher_defs number_defs getVersion_command_def)










section \<open>The enabled motor set\<close>

lemma enabledMotors_sendCommand:
  "enabledMotors (sendCommand c command tmo s) = enabledMotors s"
  by (cases "commandQueue s") (simp_all add: sendCommand_def start_exchange_def resetBuffer_def Let_def)

lemma set_foldl_set_add: "set (foldl set_add xs ms) = set xs \<union> set ms"
  by (induction ms arbitrary: xs) (auto simp: set_add_def)

lemma set_foldl_set_delete: "set (foldl set_delete xs ms) = set xs - set ms"
  by (induction ms arbitrary: xs) (auto simp: set_delete_def)

lemma written_sendCommand_Fulfilled:
  "commandQueue s = Fulfilled \<Longrightarrow>
     written (sendCommand c command tmo s) =
       written s @ [show_nat (commandIdCounter s) @ CHR '';'' # command @ [CHR 0x0A]]"
  by (simp add: sendCommand_def written_start_exchange)

lemma waiting_sendCommand_Pending:
  "commandQueue s = Pending ex \<Longrightarrow>
     waiting (sendCommand c command tmo s) = waiting s @ [(c, command, tmo)]
     \<and> written (sendCommand c command tmo s) = written s"
  by (simp add: sendCommand_def written_def)

lemma sendCommand_Rejected:
  "commandQueue s = Rejected e \<Longrightarrow>
     written (sendCommand c command tmo s) = written s
     \<and> waiting (sendCommand c command tmo s) = waiting s
     \<and> settled (sendCommand c command tmo s) = settled s @ [(c, Inl e)]"
  by (simp add: sendCommand_def written_def)

lemma enabledMotors_enableMotors:
  "enabledMotors (enableMotors c ms s) = foldl set_add (enabledMotors s) ms"
  by (simp add: enableMotors_def setEnabledMotors_def Let_def enabledMotors_sendCommand)

lemma enabledMotors_disableMotors:
  "enabledMotors (disableMotors c ms s) = foldl set_delete (enabledMotors s) ms"
  by (simp add: disableMotors_def setEnabledMotors_def Let_def enabledMotors_sendCommand)

lemma enabledMotors_disableAllMotors:
  "enabledMotors (disableAllMotors c s) = enabledMotors s"
  by (simp add: disableAllMotors_def enabledMotors_sendCommand)

text \<open>
  \<open>enableMotors\<close> adds every index passed to the enabled set and \<open>disableMotors\<close>
  removes every one; each then calls \<open>sendCommand\<close> once, with \<open>MOTORS_ENABLE;1;\<close>
  followed by the selector of the whole resulting set. On an idle dispatcher the command
  is written at once as one line; behind a pending exchange it is queued as one job; on a
  dispatcher whose queue has rejected it is neither written nor queued. Bit n of the
  selector is set exactly when the resulting set has an index congruent to n modulo 32,
  so for indices 0 to 31 the bits are the set.
\<close>

lemma enable_disable_hand_whole_set:
  "set (enabledMotors (enableMotors c ms s)) = set (enabledMotors s) \<union> set ms
   \<and> set (enabledMotors (disableMotors c ms s)) = set (enabledMotors s) - set ms
   \<and> (commandQueue s = Fulfilled \<longrightarrow>
        written (enableMotors c ms s) =
          written s @ [show_nat (commandIdCounter s) @ '';MOTORS_ENABLE;1;''
            @ show_selector (selector_of (enabledMotors (enableMotors c ms s))) @ [CHR 0x0A]]
        \<and> written (disableMotors c ms s) =
          written s @ [show_nat (commandIdCounter s) @ '';MOTORS_ENABLE;1;''
            @ show_selector (selector_of (enabledMotors (disableMotors c ms s))) @ [CHR 0x0A]])
   \<and> ((\<exists>ex. commandQueue s = Pending ex) \<longrightarrow>
        waiting (enableMotors c ms s) =
          waiting s @ [(c, ''MOTORS_ENABLE;1;''
            @ show_selector (selector_of (enabledMotors (enableMotors c ms s))), 100)]
        \<and> waiting (disableMotors c ms s) =
          waiting s @ [(c, ''MOTORS_ENABLE;1;''
            @ show_selector (selector_of (enabledMotors (disableMotors c ms s))), 100)])
   \<and> ((\<exists>e. commandQueue s = Rejected e) \<longrightarrow>
        written (enableMotors c ms s) = written s \<and> waiting (enableMotors c ms s) = waiting s
        \<and> written (disableMotors c ms s) = written s \<and> waiting (disableMotors c ms s) = waiting s)
   \<and> (bit (selector_of (enabledMotors (enableMotors c ms s))) n
        \<longleftrightarrow> n < 32 \<and> (\<exists>m \<in> set (enabledMotors s) \<union> set ms. nat (m mod 32) = n))
   \<and> (bit (selector_of (enabledMotors (disableMotors c ms s))) n
        \<longleftrightarrow> n < 32 \<and> (\<exists>m \<in> set (enabledMotors s) - set ms. nat (m mod 32) = n))"
proof -
  have failed: "commandQueue s = Rejected e \<Longrightarrow>
      written (enableMotors c ms s) = written s \<and> waiting (enableMotors c ms s) = waiting s
      \<and> written (disableMotors c ms s) = written s \<and> waiting (disableMotors c ms s) = waiting s" for e
    by (simp add: enableMotors_def disableMotors_def setEnabledMotors_def Let_def
        sendCommand_def written_def)
  let ?e = "foldl set_add (enabledMotors s) ms"
  let ?d = "foldl set_delete (enabledMotors s) ms"
  have idle: "commandQueue s = Fulfilled \<Longrightarrow>
      written (enableMotors c ms s) =
          written s @ [show_nat (commandIdCounter s) @ '';MOTORS_ENABLE;1;''
            @ show_selector (selector_of ?e) @ [CHR 0x0A]]
      \<and> written (disableMotors c ms s) =
          written s @ [show_nat (commandIdCounter s) @ '';MOTORS_ENABLE;1;''
            @ show_selector (selector_of ?d) @ [CHR 0x0A]]"
    using written_sendCommand_Fulfilled [of "s\<lparr>enabledMotors := ?e\<rparr>" c "setEnabledMotors_command ?e" 100]
      written_sendCommand_Fulfilled [of "s\<lparr>enabledMotors := ?d\<rparr>" c "setEnabledMotors_command ?d" 100]
    by (simp add: enableMotors_def disableMotors_def setEnabledMotors_def Let_def
        setEnabledMotors_command_def written_def)
  have busy: "commandQueue s = Pending ex \<Longrightarrow>
      waiting (enableMotors c ms s) =
          waiting s @ [(c, ''MOTORS_ENABLE;1;'' @ show_selector (selector_of ?e), 100)]
      \<and> waiting (disableMotors c ms s) =
          waiting s @ [(c, ''MOTORS_ENABLE;1;'' @ show_selector (selector_of ?d), 100)]" for ex
    by (simp add: enableMotors_def disableMotors_def setEnabledMotors_def Let_def
        setEnabledMotors_command_def sendCommand_def)
  show ?thesis
    using idle busy failed
    by (auto simp: enabledMotors_enableMotors enabledMotors_disableMotors set_foldl_set_add
        set_foldl_set_delete bit_selector_of)
qed

text \<open>
  While no exchange has failed, \<open>enableMotors(0)\<close> then \<open>enableMotors(2)\<close> sends the
  selector 5 on the second call, whether the second call comes after the first reply or
  before it; disabling motor 0 of the set {0, 2} sends 4.
\<close>

lemma enable_scenario_selector_5:
  "commandQueue (run (new_ClearCore False) [Call 0 (EnableMotors [0]), Data ''0;0;'']) = Fulfilled
   \<and> written (run (new_ClearCore False)
        [Call 0 (EnableMotors [0]), Data ''0;0;'', Call 1 (EnableMotors [2])])
     = [''0;MOTORS_ENABLE;1;1'' @ [CHR 0x0A], ''1;MOTORS_ENABLE;1;5'' @ [CHR 0x0A]]
   \<and> written (run (new_ClearCore False)
        [Call 0 (EnableMotors [0]), Call 1 (EnableMotors [2]), Data ''0;0;''])
     = [''0;MOTORS_ENABLE;1;1'' @ [CHR 0x0A], ''1;MOTORS_ENABLE;1;5'' @ [CHR 0x0A]]
   \<and> written (run (new_ClearCore False)
        [Call 0 (EnableMotors [0, 2]), Data ''0;0;'', Call 1 (DisableMotors [0])])
     = [''0;MOTORS_ENABLE;1;5'' @ [CHR 0x0A], ''1;MOTORS_ENABLE;1;4'' @ [CHR 0x0A]]
   \<and> bit (selector_of (enabledMotors (run (new_ClearCore False)
        [Call 0 (EnableMotors [0]), Data ''0;0;'', Call 1 (EnableMotors [2])]))) 0"
proof -
  define s where "s = run (new_ClearCore False) [Call 0 (EnableMotors [0]), Data ''0;0;'']"
  have idle: "commandQueue s = Fulfilled"
    by (simp add: s_def dispatcher_defs number_defs enableMotors_def setEnabledMotors_def
        setEnabledMotors_command_def set_add_def)
  have e: "enabledMotors s = [0]"
    by (simp add: s_def dispatcher_defs number_defs enableMotors_def setEnabledMotors_def
        setEnabledMotors_command_def set_add_def)
  have "bit (selector_of (enabledMotors (enableMotors 1 [2] s))) 0"
    using enable_disable_hand_whole_set [of 1 "[2]" s 0]
    by (simp add: e)
  then have b: "bit (selector_of (enabledMotors (run (new_ClearCore False)
        [Call 0 (EnableMotors [0]), Data ''0;0;'', Call 1 (EnableMotors [2])]))) 0"
    by (simp add: s_def run_def)
  have rest: "written (run (new_ClearCore False)
        [Call 0 (EnableMotors [0]), Data ''0;0;'', Call 1 (EnableMotors [2])])
     = [''0;MOTORS_ENABLE;1;1'' @ [CHR 0x0A], ''1;MOTORS_ENABLE;1;5'' @ [CHR 0x0A]]
   \<and> written (run (new_ClearCore False)
        [Call 0 (EnableMotors [0]), Call 1 (EnableMotors [2]), Data ''0;0;''])
     = [''0;MOTORS_ENABLE;1;1'' @ [CHR 0x0A], ''1;MOTORS_ENABLE;1;5'' @ [CHR 0x0A]]
   \<and> written (run (new_ClearCore False)
        [Call 0 (EnableMotors [0, 2]), Data ''0;0;'', Call 1 (DisableMotors [0])])
     = [''0;MOTORS_ENABLE;1;5'' @ [CHR 0x0A], ''1;MOTORS_ENABLE;1;4'' @ [CHR 0x0A]]"
    by (simp add: dispatcher_defs number_defs enableMotors_def disableMotors_def
        setEnabledMotors_def setEnabledMotors_command_def set_add_def set_delete_def)
  from idle b rest show ?thesis
    by (simp only: s_def) 
qed

text \<open>
  C7, evaluated on the code. \<open>enableMotors(0)\<close> times out, then \<open>enableMotors(2)\<close>
  is called: the set becomes {0, 2}, but no second line is written and nothing is
  queued; the second caller is rejected with the first exchange's error. Likewise
  \<open>disableMotors(0)\<close> after a failed \<open>enableMotors(0, 2)\<close> changes the set to {2}
  and sends nothing. The claim says that one command with the selector of the resulting
  set is sent after the set has changed.
\<close>

theorem enableMotors_after_failure_sends_nothing:
  "written (run (new_ClearCore False)
       [Call 0 (EnableMotors [0]), TimeoutElapsed, Call 1 (EnableMotors [2])])
     = [''0;MOTORS_ENABLE;1;1'' @ [CHR 0x0A]]
   \<and> enabledMotors (run (new_ClearCore False)
       [Call 0 (EnableMotors [0]), TimeoutElapsed, Call 1 (EnableMotors [2])]) = [0, 2]
   \<and> waiting (run (new_ClearCore False)
       [Call 0 (EnableMotors [0]), TimeoutElapsed, Call 1 (EnableMotors [2])]) = []
   \<and> settled (run (new_ClearCore False)
       [Call 0 (EnableMotors [0]), TimeoutElapsed, Call 1 (EnableMotors [2])])
     = map (\<lambda>c. (c, Inl (Error (''Command '' @ [CHR 0x22] @ ''0;MOTORS_ENABLE;1;1''
                                   @ [CHR 0x22] @ '' timed out after 100ms'')))) [0, 1]
   \<and> written (run (new_ClearCore False)
       [Call 0 (EnableMotors [0, 2]), TimeoutElapsed, Call 1 (DisableMotors [0])])
     = [''0;MOTORS_ENABLE;1;5'' @ [CHR 0x0A]]
   \<and> enabledMotors (run (new_ClearCore False)
       [Call 0 (EnableMotors [0, 2]), TimeoutElapsed, Call 1 (DisableMotors [0])]) = [2]
   \<and> waiting (run (new_ClearCore False)
       [Call 0 (EnableMotors [0, 2]), TimeoutElapsed, Call 1 (DisableMotors [0])]) = []"
  by (simp add: dispatcher_defs number_defs enableMotors_def disableMotors_def
      setEnabledMotors_def setEnabledMotors_command_def set_add_def set_delete_def)

text \<open>
  \<open>disableAllMotors\<close> leaves the enabled set as it was and calls \<open>sendCommand\<close>
  once with \<open>MOTORS_ENABLE;1;0\<close>: written at once on an idle dispatcher, queued as one
  job behind a pending exchange, neither written nor queued once the queue has rejected.
  A later \<open>enableMotors\<close> computes the same set as it would have without the call, and
  every motor that was in the set before has its bit in the selector of that set.
\<close>

lemma disableAllMotors_frame:
  "enabledMotors (disableAllMotors c s) = enabledMotors s
   \<and> disableAllMotors c s = sendCommand c ''MOTORS_ENABLE;1;0'' 100 s
   \<and> (commandQueue s = Fulfilled \<longrightarrow>
        written (disableAllMotors c s) =
          written s @ [show_nat (commandIdCounter s) @ '';MOTORS_ENABLE;1;0'' @ [CHR 0x0A]])
   \<and> ((\<exists>ex. commandQueue s = Pending ex) \<longrightarrow>
        waiting (disableAllMotors c s) = waiting s @ [(c, ''MOTORS_ENABLE;1;0'', 100)]
        \<and> written (disableAllMotors c s) = written s)
   \<and> ((\<exists>e. commandQueue s = Rejected e) \<longrightarrow>
        waiting (disableAllMotors c s) = waiting s \<and> written (disableAllMotors c s) = written s)
   \<and> enabledMotors (enableMotors c' ms (disableAllMotors c s)) = enabledMotors (enableMotors c' ms s)
   \<and> (m \<in> set (enabledMotors s) \<longrightarrow>
        bit (selector_of (enabledMotors (enableMotors c' ms (disableAllMotors c s)))) (nat (m mod 32)))"
proof -
  have "nat (m mod 32) < 32"
    by simp
  then have "m \<in> set (enabledMotors s) \<longrightarrow>
        bit (selector_of (foldl set_add (enabledMotors s) ms)) (nat (m mod 32))"
    by (auto simp: bit_selector_of set_foldl_set_add)
  moreover have "commandQueue s = Fulfilled \<longrightarrow>
        written (disableAllMotors c s) =
          written s @ [show_nat (commandIdCounter s) @ '';MOTORS_ENABLE;1;0'' @ [CHR 0x0A]]"
    by (simp add: disableAllMotors_def disableAllMotors_command_def written_sendCommand_Fulfilled)
  moreover have "disableAllMotors c s = sendCommand c ''MOTORS_ENABLE;1;0'' 100 s"
    by (simp add: disableAllMotors_def disableAllMotors_command_def)
  moreover have "(\<exists>ex. commandQueue s = Pending ex) \<longrightarrow>
        waiting (disableAllMotors c s) = waiting s @ [(c, ''MOTORS_ENABLE;1;0'', 100)]
        \<and> written (disableAllMotors c s) = written s"
    using waiting_sendCommand_Pending [of s _ c "''MOTORS_ENABLE;1;0''" 100]
    by (auto simp: disableAllMotors_def disableAllMotors_command_def)
  moreover have "(\<exists>e. commandQueue s = Rejected e) \<longrightarrow>
        waiting (disableAllMotors c s) = waiting s \<and> written (disableAllMotors c s) = written s"
    using sendCommand_Rejected [of s _ c "''MOTORS_ENABLE;1;0''" 100]
    by (auto simp: disableAllMotors_def disableAllMotors_command_def)
  ultimately show ?thesis
    by (simp add: enabledMotors_enableMotors enabledMotors_disableAllMotors
        enabledMotors_sendCommand)
qed

text \<open>
  While no exchange has failed, \<open>enableMotors(0)\<close>, \<open>disableAllMotors()\<close>,
  \<open>enableMotors(2)\<close> write lines with the selectors 1, 0 and 5: motor 0 is enabled
  again by the third call.
\<close>

lemma disableAllMotors_scenario:
  "commandQueue (run (new_ClearCore False) [Call 0 (EnableMotors [0]), Data ''0;0;'']) = Fulfilled
   \<and> 0 \<in> set (enabledMotors (run (new_ClearCore False) [Call 0 (EnableMotors [0]), Data ''0;0;'']))
   \<and> enabledMotors (run (new_ClearCore False)
        [Call 0 (EnableMotors [0]), Data ''0;0;'', Call 1 DisableAllMotors]) = [0]
   \<and> bit (selector_of (enabledMotors (run (new_ClearCore False)
        [Call 0 (EnableMotors [0]), Data ''0;0;'', Call 1 DisableAllMotors,
         Call 2 (EnableMotors [2])]))) 0
   \<and> written (run (new_ClearCore False)
        [Call 0 (EnableMotors [0]), Data ''0;0;'', Call 1 DisableAllMotors, Data ''1;0;'',
         Call 2 (EnableMotors [2])])
     = [''0;MOTORS_ENABLE;1;1'' @ [CHR 0x0A], ''1;MOTORS_ENABLE;1;0'' @ [CHR 0x0A],
        ''2;MOTORS_ENABLE;1;5'' @ [CHR 0x0A]]"
proof -
  define s where "s = run (new_ClearCore False) [Call 0 (EnableMotors [0]), Data ''0;0;'']"
  have idle: "commandQueue s = Fulfilled" and e: "enabledMotors s = [0]"
    by (simp_all add: s_def dispatcher_defs number_defs enableMotors_def setEnabledMotors_def
        setEnabledMotors_command_def set_add_def)
  note keeps = disableAllMotors_frame [of 1 s 2 "[2]" 0]
  have kept: "enabledMotors (disableAllMotors 1 s) = [0]"
    using keeps [THEN conjunct1] by (simp add: e)
  have m: "0 \<in> set (enabledMotors s)"
    by (simp add: e)
  from keeps have "0 \<in> set (enabledMotors s) \<longrightarrow>
      bit (selector_of (enabledMotors (enableMotors 2 [2] (disableAllMotors 1 s)))) (nat (0 mod 32))"
    by blast
  with m have stale: "bit (selector_of (enabledMotors (enableMotors 2 [2] (disableAllMotors 1 s)))) 0"
    by simp
  have a: "enabledMotors (run (new_ClearCore False)
        [Call 0 (EnableMotors [0]), Data ''0;0;'', Call 1 DisableAllMotors]) = [0]"
    using kept by (simp add: s_def run_def)
  have b: "bit (selector_of (enabledMotors (run (new_ClearCore False)
        [Call 0 (EnableMotors [0]), Data ''0;0;'', Call 1 DisableAllMotors,
         Call 2 (EnableMotors [2])]))) 0"
    using stale by (simp add: s_def run_def)
  have w: "written (run (new_ClearCore False)
        [Call 0 (EnableMotors [0]), Data ''0;0;'', Call 1 DisableAllMotors, Data ''1;0;'',
         Call 2 (EnableMotors [2])])
     = [''0;MOTORS_ENABLE;1;1'' @ [CHR 0x0A], ''1;MOTORS_ENABLE;1;0'' @ [CHR 0x0A],
        ''2;MOTORS_ENABLE;1;5'' @ [CHR 0x0A]]"
    by (simp add: dispatcher_defs number_defs enableMotors_def disableAllMotors_def
        disableAllMotors_command_def setEnabledMotors_def setEnabledMotors_command_def set_add_def)
  from idle m a b w show ?thesis
    by (simp only: s_def)
qed

text \<open>
  C8, evaluated on the code. \<open>enableMotors(0)\<close> times out, then
  \<open>disableAllMotors()\<close> is called: no line with the zero selector is written and
  nothing is queued; the caller is rejected with the first exchange's error. The set is
  left as it was, {0}, and a later \<open>enableMotors(2)\<close> makes it {0, 2}, sending
  nothing either. The claim says that \<open>disableAllMotors\<close> sends
  \<open>MOTORS_ENABLE\<close> with a zero selector.
\<close>

theorem disableAllMotors_after_failure_sends_nothing:
  "written (run (new_ClearCore False)
       [Call 0 (EnableMotors [0]), TimeoutElapsed, Call 1 DisableAllMotors])
     = [''0;MOTORS_ENABLE;1;1'' @ [CHR 0x0A]]
   \<and> waiting (run (new_ClearCore False)
       [Call 0 (EnableMotors [0]), TimeoutElapsed, Call 1 DisableAllMotors]) = []
   \<and> settled (run (new_ClearCore False)
       [Call 0 (EnableMotors [0]), TimeoutElapsed, Call 1 DisableAllMotors])
     = map (\<lambda>c. (c, Inl (Error (''Command '' @ [CHR 0x22] @ ''0;MOTORS_ENABLE;1;1''
                                   @ [CHR 0x22] @ '' timed out after 100ms'')))) [0, 1]
   \<and> enabledMotors (run (new_ClearCore False)
       [Call 0 (EnableMotors [0]), TimeoutElapsed, Call 1 DisableAllMotors]) = [0]
   \<and> written (run (new_ClearCore False)
       [Call 0 (EnableMotors [0]), TimeoutElapsed, Call 1 DisableAllMotors,
        Call 2 (EnableMotors [2])])
     = [''0;MOTORS_ENABLE;1;1'' @ [CHR 0x0A]]
   \<and> enabledMotors (run (new_ClearCore False)
       [Call 0 (EnableMotors [0]), TimeoutElapsed, Call 1 DisableAllMotors,
        Call 2 (EnableMotors [2])]) = [0, 2]"
  by (simp add: dispatcher_defs number_defs enableMotors_def disableAllMotors_def
      disableAllMotors_command_def setEnabledMotors_def setEnabledMotors_command_def set_add_def)

section \<open>Read operations\<close>

lemma at_drop: "at (drop n xs) i = at xs (n + i)"
  by (auto simp: at_def)

lemma flag_at_drop: "flag_at (drop n xs) i = flag_at xs (n + i)"
  by (simp add: flag_at_def at_drop)

lemma int_at_drop: "int_at (drop n xs) i = int_at xs (n + i)"
  by (simp add: int_at_def at_drop)

lemma chunk_count:
  fixes n :: nat
  assumes "0 < n"
  shows "Suc ((n - 7 + 6) div 7) = (n + 6) div 7"
proof (cases "n < 7")
  case True
  have "(n + 6) div 7 = 1"
    by (rule div_nat_eqI) (use True assms in simp_all)
  with True show ?thesis by simp
next
  case False
  then obtain m where "n = m + 7"
    by (metis add.commute le_Suc_ex not_less)
  then show ?thesis by simp
qed

lemma length_readMotors_states: "length (readMotors_states parts) = (length parts + 6) div 7"
proof (induction parts rule: readMotors_states.induct)
  case (1 parts)
  show ?case
  proof (cases "parts = []")
    case True
    then show ?thesis by (simp add: readMotors_states.simps)
  next
    case False
    then have "length (readMotors_states (drop 7 parts)) = (length parts - 7 + 6) div 7"
      using 1 by simp
    moreover have "Suc ((length parts - 7 + 6) div 7) = (length parts + 6) div 7"
      by (rule chunk_count) (use False in simp)
    ultimately have "Suc (length (readMotors_states (drop 7 parts))) = (length parts + 6) div 7"
      by (simp only:)
    with False show ?thesis
      by (subst readMotors_states.simps) simp
  qed
qed

lemma nth_readMotors_states:
  "i < length (readMotors_states parts) \<Longrightarrow>
     readMotors_states parts ! i =
       \<lparr> isWritable = flag_at parts (7 * i), enabled = flag_at parts (7 * i + 1),
         stepsComplete = flag_at parts (7 * i + 2), isInHardwareFault = flag_at parts (7 * i + 3),
         hlfbState = int_at parts (7 * i + 4), hlfbMode = int_at parts (7 * i + 5),
         position = int_at parts (7 * i + 6) \<rparr>"
proof (induction parts arbitrary: i rule: readMotors_states.induct)
  case (1 parts)
  show ?case
  proof (cases "parts = []")
    case True
    with 1(2) show ?thesis by (simp add: readMotors_states.simps)
  next
    case False
    then have unfold: "readMotors_states parts =
        \<lparr> isWritable = flag_at parts 0, enabled = flag_at parts 1,
          stepsComplete = flag_at parts 2, isInHardwareFault = flag_at parts 3,
          hlfbState = int_at parts 4, hlfbMode = int_at parts 5,
          position = int_at parts 6 \<rparr> # readMotors_states (drop 7 parts)"
      by (subst readMotors_states.simps) simp
    show ?thesis
    proof (cases i)
      case 0
      then show ?thesis by (simp add: unfold numeral_2_eq_2)
    next
      case (Suc j)
      with 1(2) have "j < length (readMotors_states (drop 7 parts))"
        by (simp add: unfold)
      from 1(1) [OF False this] Suc show ?thesis
        by (simp add: unfold flag_at_drop int_at_drop add.commute add.left_commute)
    qed
  qed
qed

lemma call_read_set:
  assumes "set xs = set ys"
  shows "call c (ReadMotors xs) s = call c (ReadMotors ys) s"
    and "call c (ReadDigitalSensors xs) s = call c (ReadDigitalSensors ys) s"
    and "call c (ReadAnalogSensors xs) s = call c (ReadAnalogSensors ys) s"
  using selector_of_set [OF assms]
  by (simp_all add: readMotors_command_def readDigitalSensors_command_def readAnalogSensors_command_def)

text \<open>
  C6 (as the code has it). A read operation sends only the bitmask of the indices, so
  two calls whose index lists have the same elements are the same call to the
  dispatcher, in whatever order the indices were passed: the whole run is the same.
  The result is the payload of the reply decoded position by position, in the order the
  controller sent it: element i of \<open>readDigitalSensors\<close> and \<open>readAnalogSensors\<close>
  is decoded from payload field i, element i of \<open>readMotors\<close> from the fields 7i to
  7i + 6.
\<close>

theorem read_results_follow_reply_order:
  "(set xs = set ys \<longrightarrow>
      run s (Call c (ReadMotors xs) # evs) = run s (Call c (ReadMotors ys) # evs)
      \<and> run s (Call c (ReadDigitalSensors xs) # evs) = run s (Call c (ReadDigitalSensors ys) # evs)
      \<and> run s (Call c (ReadAnalogSensors xs) # evs) = run s (Call c (ReadAnalogSensors ys) # evs))
   \<and> length (readDigitalSensors_result line) = length (payload_fields line)
   \<and> length (readAnalogSensors_result line) = length (payload_fields line)
   \<and> length (readMotors_result line) = (length (payload_fields line) + 6) div 7
   \<and> (i < length (payload_fields line) \<longrightarrow>
        readDigitalSensors_result line ! i = (payload_fields line ! i = ''1'')
        \<and> readAnalogSensors_result line ! i = parseInt (payload_fields line ! i))
   \<and> (i < length (readMotors_result line) \<longrightarrow>
        readMotors_result line ! i =
          \<lparr> isWritable = flag_at (payload_fields line) (7 * i),
            enabled = flag_at (payload_fields line) (7 * i + 1),
            stepsComplete = flag_at (payload_fields line) (7 * i + 2),
            isInHardwareFault = flag_at (payload_fields line) (7 * i + 3),
            hlfbState = int_at (payload_fields line) (7 * i + 4),
            hlfbMode = int_at (payload_fields line) (7 * i + 5),
            position = int_at (payload_fields line) (7 * i + 6) \<rparr>)"
proof -
  have "set xs = set ys \<longrightarrow>
      run s (Call c (ReadMotors xs) # evs) = run s (Call c (ReadMotors ys) # evs)
      \<and> run s (Call c (ReadDigitalSensors xs) # evs) = run s (Call c (ReadDigitalSensors ys) # evs)
      \<and> run s (Call c (ReadAnalogSensors xs) # evs) = run s (Call c (ReadAnalogSensors ys) # evs)"
    using call_read_set [of xs ys c s] by (simp add: run_def)
  moreover have "i < length (readMotors_result line) \<longrightarrow>
        readMotors_result line ! i =
          \<lparr> isWritable = flag_at (payload_fields line) (7 * i),
            enabled = flag_at (payload_fields line) (7 * i + 1),
            stepsComplete = flag_at (payload_fields line) (7 * i + 2),
            isInHardwareFault = flag_at (payload_fields line) (7 * i + 3),
            hlfbState = int_at (payload_fields line) (7 * i + 4),
            hlfbMode = int_at (payload_fields line) (7 * i + 5),
            position = int_at (payload_fields line) (7 * i + 6) \<rparr>"
    using nth_readMotors_states [of i "payload_fields line"]
    by (simp add: readMotors_result_def)
  ultimately show ?thesis
    by (simp add: readDigitalSensors_result_def readAnalogSensors_result_def
        readMotors_result_def length_readMotors_states)
qed

text \<open>
  C6 (as the claim states it) fails. \<open>readDigitalSensors(0, 2)\<close> and
  \<open>readDigitalSensors(2, 0)\<close> write the same line, and with the reply of the
  integration test both return \<open>[true, false]\<close>: no assignment of values to the
  sensors makes both results follow the indices in the order passed.
\<close>

theorem read_result_not_in_request_order:
  "written (run (new_ClearCore False) [Call 0 (ReadDigitalSensors [0, 2]), Data ''0;0;1;0;''])
     = [''0;DSENSORS_STATE;1;5'' @ [CHR 0x0A]]
   \<and> written (run (new_ClearCore False) [Call 0 (ReadDigitalSensors [2, 0]), Data ''0;0;1;0;''])
     = [''0;DSENSORS_STATE;1;5'' @ [CHR 0x0A]]
   \<and> readDigitalSensors_returned
        (run (new_ClearCore False) [Call 0 (ReadDigitalSensors [0, 2]), Data ''0;0;1;0;'']) 0
     = Some (Inr [True, False])
   \<and> readDigitalSensors_returned
        (run (new_ClearCore False) [Call 0 (ReadDigitalSensors [2, 0]), Data ''0;0;1;0;'']) 0
     = Some (Inr [True, False])
   \<and> \<not> (\<exists>v. \<forall>sensors \<in> set [[0, 2], [2, 0]].
          readDigitalSensors_returned
            (run (new_ClearCore False) [Call 0 (ReadDigitalSensors sensors), Data ''0;0;1;0;'']) 0
          = Some (Inr (map v sensors)))"
proof -
  have a: "readDigitalSensors_returned
        (run (new_ClearCore False) [Call 0 (ReadDigitalSensors [0, 2]), Data ''0;0;1;0;'']) 0
     = Some (Inr [True, False])"
    by (simp add: readDigitalSensors_returned_def readDigitalSensors_result_def payload_fields_def
        js_slice_def readDigitalSensors_command_def dispatcher_defs number_defs)
  have b: "readDigitalSensors_returned
        (run (new_ClearCore False) [Call 0 (ReadDigitalSensors [2, 0]), Data ''0;0;1;0;'']) 0
     = Some (Inr [True, False])"
    by (simp add: readDigitalSensors_returned_def readDigitalSensors_result_def payload_fields_def
        js_slice_def readDigitalSensors_command_def dispatcher_defs number_defs)
  have w: "written (run (new_ClearCore False) [Call 0 (ReadDigitalSensors [0, 2]), Data ''0;0;1;0;''])
     = [''0;DSENSORS_STATE;1;5'' @ [CHR 0x0A]]
   \<and> written (run (new_ClearCore False) [Call 0 (ReadDigitalSensors [2, 0]), Data ''0;0;1;0;''])
     = [''0;DSENSORS_STATE;1;5'' @ [CHR 0x0A]]"
    by (simp add: readDigitalSensors_command_def dispatcher_defs number_defs)
  have "\<not> (\<exists>v. \<forall>sensors \<in> set [[0, 2], [2, 0]].
          readDigitalSensors_returned
            (run (new_ClearCore False) [Call 0 (ReadDigitalSensors sensors), Data ''0;0;1;0;'']) 0
          = Some (Inr (map v sensors)))"
  proof
    assume "\<exists>v. \<forall>sensors \<in> set [[0, 2], [2, 0]].
          readDigitalSensors_returned
            (run (new_ClearCore False) [Call 0 (ReadDigitalSensors sensors), Data ''0;0;1;0;'']) 0
          = Some (Inr (map v sensors))"
    then obtain v where v: "\<forall>sensors \<in> set [[0, 2], [2, 0]].
          readDigitalSensors_returned
            (run (new_ClearCore False) [Call 0 (ReadDigitalSensors sensors), Data ''0;0;1;0;'']) 0
          = Some (Inr (map v sensors))" ..
    from v have "readDigitalSensors_returned
        (run (new_ClearCore False) [Call 0 (ReadDigitalSensors [0, 2]), Data ''0;0;1;0;'']) 0
          = Some (Inr (map v [0, 2]))" by simp
    with a have 1: "v 0 = True \<and> v 2 = False" by simp
    from v have "readDigitalSensors_returned
        (run (new_ClearCore False) [Call 0 (ReadDigitalSensors [2, 0]), Data ''0;0;1;0;'']) 0
          = Some (Inr (map v [2, 0]))" by simp
    with b have "v 2 = True \<and> v 0 = False" by simp
    with 1 show False by simp
  qed
  with a b w show ?thesis by blast
qed

text \<open>
  The reply of the integration test to \<open>readMotors(0, 2)\<close>, given to
  \<open>readMotors(2, 0)\<close>: the same run and the same two records, positions 100 and 200.
\<close>

theorem read_results_follow_reply_order_witness:
  "set [0, 2] = set [2, 0 :: int]
   \<and> run (new_ClearCore False)
         [Call 0 (ReadMotors [0, 2]), Data ''0;0;1;1;1;0;1;0;100;1;0;1;0;1;0;200;'']
     = run (new_ClearCore False)
         [Call 0 (ReadMotors [2, 0]), Data ''0;0;1;1;1;0;1;0;100;1;0;1;0;1;0;200;'']
   \<and> readMotors_returned (run (new_ClearCore False)
         [Call 0 (ReadMotors [2, 0]), Data ''0;0;1;1;1;0;1;0;100;1;0;1;0;1;0;200;'']) 0
     = Some (Inr
        [\<lparr> isWritable = True, enabled = True, stepsComplete = True, isInHardwareFault = False,
            hlfbState = Num 1, hlfbMode = Num 0, position = Num 100 \<rparr>,
         \<lparr> isWritable = True, enabled = False, stepsComplete = True, isInHardwareFault = False,
            hlfbState = Num 1, hlfbMode = Num 0, position = Num 200 \<rparr>])
   \<and> 1 < length (readMotors_result ''0;0;1;1;1;0;1;0;100;1;0;1;0;1;0;200;'')
   \<and> position (readMotors_result ''0;0;1;1;1;0;1;0;100;1;0;1;0;1;0;200;'' ! 1) = Num 200
   \<and> 1 < length (payload_fields ''0;0;1;1;1;0;1;0;100;1;0;1;0;1;0;200;'')
   \<and> readDigitalSensors_result ''0;0;1;1;1;0;1;0;100;1;0;1;0;1;0;200;'' ! 1 = True"
proof -
  define line where "line = ''0;0;1;1;1;0;1;0;100;1;0;1;0;1;0;200;''"
  define s where "s = new_ClearCore False"
  note order = read_results_follow_reply_order [of "[0, 2]" "[2, 0]" s 0 "[Data line]" line 1]
  have sets: "set [0, 2] = set [2, 0 :: int]"
    by auto
  have fields: "payload_fields line
      = [''1'', ''1'', ''1'', ''0'', ''1'', ''0'', ''100'', ''1'', ''0'', ''1'', ''0'', ''1'', ''0'', ''200'']"
    by (simp add: line_def payload_fields_def js_slice_def)
  have same: "run s [Call 0 (ReadMotors [0, 2]), Data line] = run s [Call 0 (ReadMotors [2, 0]), Data line]"
    using order sets by blast
  have len: "length (readMotors_result line) = 2"
    using order by (simp add: fields)
  have "1 < length (readMotors_result line) \<longrightarrow>
      position (readMotors_result line ! 1) = int_at (payload_fields line) (7 * 1 + 6)"
    using order by simp
  then have pos: "position (readMotors_result line ! 1) = Num 200"
    by (simp add: len fields int_at_def at_def number_defs)
  have "1 < length (payload_fields line) \<longrightarrow>
      readDigitalSensors_result line ! 1 = (payload_fields line ! 1 = ''1'')"
    using order by blast
  then have dig: "readDigitalSensors_result line ! 1 = True"
    by (simp add: fields)
  have ret: "readMotors_returned (run s [Call 0 (ReadMotors [2, 0]), Data line]) 0
     = Some (Inr
        [\<lparr> isWritable = True, enabled = True, stepsComplete = True, isInHardwareFault = False,
            hlfbState = Num 1, hlfbMode = Num 0, position = Num 100 \<rparr>,
         \<lparr> isWritable = True, enabled = False, stepsComplete = True, isInHardwareFault = False,
            hlfbState = Num 1, hlfbMode = Num 0, position = Num 200 \<rparr>])"
    by (simp add: s_def line_def readMotors_returned_def readMotors_result_def payload_fields_def
        js_slice_def readMotors_states.simps flag_at_def int_at_def at_def readMotors_command_def
        dispatcher_defs number_defs)
  have "set [0, 2] = set [2, 0 :: int]
   \<and> run s [Call 0 (ReadMotors [0, 2]), Data line] = run s [Call 0 (ReadMotors [2, 0]), Data line]
   \<and> readMotors_returned (run s [Call 0 (ReadMotors [2, 0]), Data line]) 0
     = Some (Inr
        [\<lparr> isWritable = True, enabled = True, stepsComplete = True, isInHardwareFault = False,
            hlfbState = Num 1, hlfbMode = Num 0, position = Num 100 \<rparr>,
         \<lparr> isWritable = True, enabled = False, stepsComplete = True, isInHardwareFault = False,
            hlfbState = Num 1, hlfbMode = Num 0, position = Num 200 \<rparr>])
   \<and> 1 < length (readMotors_result line)
   \<and> position (readMotors_result line ! 1) = Num 200
   \<and> 1 < length (payload_fields line)
   \<and> readDigitalSensors_result line ! 1 = True"
    using sets same ret len pos dig by (simp add: fields)
  then show ?thesis
    by (simp only: s_def line_def)
qed

end
